theory Spec2Isabelle
  imports Complex_Main "HOL-Library.Multiset" "HOL-Library.Option_ord"
begin

section \<open>Exceptions\<close>

text \<open>
  Every \<^verbatim>\<open>raise\<close> and failed \<^verbatim>\<open>assert\<close> of the Python source is a value of
  this type; a function that may raise returns \<open>error + 'a\<close>, with \<open>Inl\<close> the exception.
  \<open>Raised msg\<close> stands for any exception thrown by a candidate generator.
\<close>

datatype error =
  AssertionError | TypeError | ValueError | KeyError | FileNotFoundError | Raised string

section \<open>Rank fusion: \<^verbatim>\<open>utils/functions.py\<close>\<close>

subsection \<open>Value objects\<close>

text \<open>
  Modelled from the spec: \<^verbatim>\<open>data_model/generator.py\<close>, which declares the two tuple types
  \<^verbatim>\<open>CandidateEmbeddings\<close> and \<^verbatim>\<open>ScoredCandidate\<close>, is not among the sources. The fields and
  their order are the ones \<^verbatim>\<open>weighting_by_ranking\<close> reads and the ones it passes to the
  constructor: \<^verbatim>\<open>ScoredCandidate(candidate, original_rank, distance, score)\<close>. A missing
  embedding, distance or score is Python's \<^verbatim>\<open>None\<close>. Floats are idealised as real numbers.
\<close>

datatype ('c, 'e) CandidateEmbeddings =
  CandidateEmbeddings (candidate: 'c) (context_emb: "'e option") (abstract_emb: "'e option")

datatype 'c ScoredCandidate =
  ScoredCandidate (candidate: 'c) (original_rank: nat) (distance: "real option")
    (score: "real option")

subsection \<open>\<^verbatim>\<open>sklearn.preprocessing.MinMaxScaler\<close> on one feature\<close>

text \<open>
  The library class, restricted to what the source uses: one column, the default feature
  range \<open>(0, 1)\<close>. \<^verbatim>\<open>fit\<close> stores \<^verbatim>\<open>scale_ = 1 / _handle_zeros_in_scale(data_max - data_min)\<close>
  and \<^verbatim>\<open>min_ = 0 - data_min * scale_\<close>; \<^verbatim>\<open>transform\<close> computes \<^verbatim>\<open>x * scale_ + min_\<close>.
  \<^verbatim>\<open>_handle_zeros_in_scale\<close> replaces a zero range by 1. Fitting no sample raises
  \<^verbatim>\<open>ValueError\<close>. The attributes \<^verbatim>\<open>scale_\<close> and \<^verbatim>\<open>min_\<close> are the fields
  \<open>scaler_scale\<close> and \<open>scaler_min\<close>.
\<close>

record MinMaxScaler =
  scaler_scale :: real
  scaler_min :: real

definition handle_zeros_in_scale :: "real \<Rightarrow> real" where
  "handle_zeros_in_scale r = (if r = 0 then 1 else r)"

fun fit :: "real list \<Rightarrow> error + MinMaxScaler" where
  "fit [] = Inl ValueError"
| "fit (x # xs) =
     (let data_min = fold min xs x;
          data_max = fold max xs x;
          data_range = data_max - data_min;
          sc = 1 / handle_zeros_in_scale data_range
      in Inr \<lparr>scaler_scale = sc, scaler_min = 0 - data_min * sc\<rparr>)"

definition transform :: "MinMaxScaler \<Rightarrow> real \<Rightarrow> real" where
  "transform s x = x * scaler_scale s + scaler_min s"

subsection \<open>\<^verbatim>\<open>weighting_by_ranking\<close>\<close>

text \<open>
  Python's truth value of the parameter \<^verbatim>\<open>default_score\<close>, as tested by
  \<^verbatim>\<open>if default_score:\<close> and \<^verbatim>\<open>elif default_score:\<close>: \<^verbatim>\<open>None\<close> and \<^verbatim>\<open>0.0\<close> are both false.
\<close>

definition truthy :: "real option \<Rightarrow> bool" where
  "truthy d = (case d of None \<Rightarrow> False | Some x \<Rightarrow> x \<noteq> 0)"

text \<open>
  One iteration of \<^verbatim>\<open>for rank, c_emb in enumerate(candidates)\<close>, on the pair of lists
  \<^verbatim>\<open>(scored_candidates, non_scored_candidates)\<close>. The cosine distance of
  \<^verbatim>\<open>scipy.spatial.distance\<close> is the parameter \<open>cosine\<close>.
\<close>

definition classify ::
  "('e \<Rightarrow> 'e \<Rightarrow> real) \<Rightarrow> real option \<Rightarrow> nat \<times> ('c, 'e) CandidateEmbeddings \<Rightarrow>
   'c ScoredCandidate list \<times> 'c ScoredCandidate list \<Rightarrow>
   'c ScoredCandidate list \<times> 'c ScoredCandidate list" where
  "classify cosine default_score rc acc =
     (case rc of (rank, c_emb) \<Rightarrow>
      case acc of (scored_candidates, non_scored_candidates) \<Rightarrow>
      (case (context_emb c_emb, abstract_emb c_emb) of
         (Some u, Some v) \<Rightarrow>
           (scored_candidates @
              [ScoredCandidate (CandidateEmbeddings.candidate c_emb) rank (Some (cosine u v)) None],
            non_scored_candidates)
       | _ \<Rightarrow>
           if truthy default_score
           then (scored_candidates @
                   [ScoredCandidate (CandidateEmbeddings.candidate c_emb) rank default_score None],
                 non_scored_candidates)
           else (scored_candidates,
                 non_scored_candidates @
                   [ScoredCandidate (CandidateEmbeddings.candidate c_emb) rank None None])))"

definition partition_candidates ::
  "('e \<Rightarrow> 'e \<Rightarrow> real) \<Rightarrow> real option \<Rightarrow> ('c, 'e) CandidateEmbeddings list \<Rightarrow>
   'c ScoredCandidate list \<times> 'c ScoredCandidate list" where
  "partition_candidates cosine default_score candidates =
     fold (classify cosine default_score) (enumerate 0 candidates) ([], [])"

text \<open>
  \<^verbatim>\<open>np.array([c.distance for c in scored_candidates])\<close> as the scaler's input: a
  distance that is \<^verbatim>\<open>None\<close> is not a number and makes the scaler raise.
\<close>

fun distances :: "'c ScoredCandidate list \<Rightarrow> error + real list" where
  "distances [] = Inr []"
| "distances (s # ss) =
     (case distance s of
        None \<Rightarrow> Inl TypeError
      | Some d \<Rightarrow> (case distances ss of Inl e \<Rightarrow> Inl e | Inr ds \<Rightarrow> Inr (d # ds)))"

text \<open>The body of the \<^verbatim>\<open>lambda\<close> mapped over \<^verbatim>\<open>scored_candidates\<close>.\<close>

definition rescore ::
  "real \<Rightarrow> MinMaxScaler \<Rightarrow> MinMaxScaler \<Rightarrow> 'c ScoredCandidate \<Rightarrow> error + 'c ScoredCandidate" where
  "rescore alpha rank_scaler distance_scaler s_cand =
     (case distance s_cand of
        None \<Rightarrow> Inl TypeError
      | Some d \<Rightarrow>
          Inr (ScoredCandidate (ScoredCandidate.candidate s_cand) (original_rank s_cand) (Some d)
                 (Some (alpha * transform rank_scaler (real (original_rank s_cand))
                        + (1 - alpha) * transform distance_scaler d))))"

fun rescore_all ::
  "real \<Rightarrow> MinMaxScaler \<Rightarrow> MinMaxScaler \<Rightarrow> 'c ScoredCandidate list \<Rightarrow>
   error + 'c ScoredCandidate list" where
  "rescore_all alpha rs ds [] = Inr []"
| "rescore_all alpha rs ds (s # ss) =
     (case rescore alpha rs ds s of
        Inl e \<Rightarrow> Inl e
      | Inr s' \<Rightarrow> (case rescore_all alpha rs ds ss of Inl e \<Rightarrow> Inl e | Inr ss' \<Rightarrow> Inr (s' # ss')))"

text \<open>
  The function itself. The two \<^verbatim>\<open>assert\<close>s come first, in the source's order.
  \<^verbatim>\<open>sorted(..., key=lambda s_cand: s_cand.score)\<close> is a stable ascending sort, as
  \<open>sort_key\<close> is; scores are compared in the order of \<open>real option\<close>, which on the
  values \<open>Some x\<close> that reach the sort is the order of the reals.
\<close>

definition weighting_by_ranking ::
  "('e \<Rightarrow> 'e \<Rightarrow> real) \<Rightarrow> ('c, 'e) CandidateEmbeddings list \<Rightarrow> real \<Rightarrow> real option \<Rightarrow>
   error + 'c ScoredCandidate list" where
  "weighting_by_ranking cosine candidates alpha default_score =
     (if truthy default_score \<and> (case default_score of None \<Rightarrow> False | Some d \<Rightarrow> \<not> 0 \<le> d)
      then Inl AssertionError
      else if \<not> (0 \<le> alpha \<and> alpha \<le> 1) then Inl AssertionError
      else
        (case partition_candidates cosine default_score candidates of
           (scored_candidates, non_scored_candidates) \<Rightarrow>
             if candidates = [] \<or> scored_candidates = [] then Inr non_scored_candidates
             else
               (case fit (map real [0..<length candidates]) of
                  Inl e \<Rightarrow> Inl e
                | Inr rank_scaler \<Rightarrow>
                    (case distances scored_candidates of
                       Inl e \<Rightarrow> Inl e
                     | Inr ds \<Rightarrow>
                         (case fit ds of
                            Inl e \<Rightarrow> Inl e
                          | Inr distance_scaler \<Rightarrow>
                              (case rescore_all alpha rank_scaler distance_scaler
                                      scored_candidates of
                                 Inl e \<Rightarrow> Inl e
                               | Inr rescored \<Rightarrow>
                                   Inr (sort_key score rescored @ non_scored_candidates)))))))"

subsection \<open>\<^verbatim>\<open>scipy.spatial.distance.cosine\<close>\<close>

text \<open>
  \<open>weighting_by_ranking\<close> takes the distance as a parameter, so the theorems below hold
  for any distance function. On concrete inputs the embeddings are unit vectors along
  coordinate axes, the vector along axis \<open>i\<close> written \<open>i\<close>: the cosine distance of two
  of them is 0 when they are the same vector and 1 when they are orthogonal.
\<close>

definition axis_cosine :: "nat \<Rightarrow> nat \<Rightarrow> real" where
  "axis_cosine i j = (if i = j then 0 else 1)"

subsection \<open>The ranking the specification describes\<close>

text \<open>
  The definitions of this subsection follow the words of the specification, not the
  source; the theorems compare \<open>weighting_by_ranking\<close> with them.

  A candidate is scorable when both embeddings are present; its raw distance is the
  cosine distance of the two.
\<close>

definition scorable :: "('c, 'e) CandidateEmbeddings \<Rightarrow> bool" where
  "scorable c = (context_emb c \<noteq> None \<and> abstract_emb c \<noteq> None)"

definition embedding_distance ::
  "('e \<Rightarrow> 'e \<Rightarrow> real) \<Rightarrow> ('c, 'e) CandidateEmbeddings \<Rightarrow> real" where
  "embedding_distance cosine c =
     (case (context_emb c, abstract_emb c) of (Some u, Some v) \<Rightarrow> cosine u v | _ \<Rightarrow> 0)"

text \<open>
  Min-max normalisation of \<open>x\<close> over the range \<open>[lo, hi]\<close>, with the value 0 on a range of
  width zero.
\<close>

definition min_max :: "real \<Rightarrow> real \<Rightarrow> real \<Rightarrow> real" where
  "min_max lo hi x = (if hi = lo then 0 else (x - lo) / (hi - lo))"

text \<open>
  The fused entries of a list \<open>S\<close> of candidates paired with their original ranks, out of
  \<open>n\<close> candidates in all, each with the distance \<open>dist_of\<close> gives it: the rank is normalised
  over \<open>[0, n - 1]\<close>, the distance over the range of the distances of \<open>S\<close>.
\<close>

definition fuse ::
  "real \<Rightarrow> nat \<Rightarrow> (('c, 'e) CandidateEmbeddings \<Rightarrow> real) \<Rightarrow>
   (nat \<times> ('c, 'e) CandidateEmbeddings) list \<Rightarrow> 'c ScoredCandidate list" where
  "fuse alpha n dist_of S =
     (let D = map (\<lambda>rc. dist_of (snd rc)) S; lo = Min (set D); hi = Max (set D)
      in map (\<lambda>rc. ScoredCandidate (CandidateEmbeddings.candidate (snd rc)) (fst rc)
                      (Some (dist_of (snd rc)))
                      (Some (alpha * min_max 0 (real (n - 1)) (real (fst rc))
                             + (1 - alpha) * min_max lo hi (dist_of (snd rc))))) S)"

text \<open>A candidate left without distance and score, at its original rank.\<close>

definition unscored_entry :: "nat \<times> ('c, 'e) CandidateEmbeddings \<Rightarrow> 'c ScoredCandidate" where
  "unscored_entry rc = ScoredCandidate (CandidateEmbeddings.candidate (snd rc)) (fst rc) None None"

text \<open>
  What the loop of the source does with a candidate, for any \<open>default_score\<close>: it enters
  the scored list when it is scorable or the default is truthy, with the stored distance
  \<open>stored_distance\<close>.
\<close>

definition in_scored :: "real option \<Rightarrow> nat \<times> ('c, 'e) CandidateEmbeddings \<Rightarrow> bool" where
  "in_scored default_score rc = (scorable (snd rc) \<or> truthy default_score)"

definition stored_distance ::
  "('e \<Rightarrow> 'e \<Rightarrow> real) \<Rightarrow> real option \<Rightarrow> ('c, 'e) CandidateEmbeddings \<Rightarrow> real" where
  "stored_distance cosine default_score c =
     (if scorable c then embedding_distance cosine c
      else (case default_score of Some x \<Rightarrow> x | None \<Rightarrow> 0))"

definition pending_entry ::
  "('e \<Rightarrow> 'e \<Rightarrow> real) \<Rightarrow> real option \<Rightarrow> nat \<times> ('c, 'e) CandidateEmbeddings \<Rightarrow>
   'c ScoredCandidate" where
  "pending_entry cosine default_score rc =
     ScoredCandidate (CandidateEmbeddings.candidate (snd rc)) (fst rc)
       (Some (stored_distance cosine default_score (snd rc))) None"

definition scored_set ::
  "real option \<Rightarrow> ('c, 'e) CandidateEmbeddings list \<Rightarrow>
   (nat \<times> ('c, 'e) CandidateEmbeddings) list" where
  "scored_set default_score cands = filter (in_scored default_score) (enumerate 0 cands)"

definition unscored_set ::
  "real option \<Rightarrow> ('c, 'e) CandidateEmbeddings list \<Rightarrow>
   (nat \<times> ('c, 'e) CandidateEmbeddings) list" where
  "unscored_set default_score cands =
     filter (\<lambda>rc. \<not> in_scored default_score rc) (enumerate 0 cands)"

section \<open>Entities: \<^verbatim>\<open>data_model/kgs.py\<close>\<close>

text \<open>
  \<^verbatim>\<open>class Entity(NamedTuple)\<close> has the single field \<^verbatim>\<open>uri\<close>.
\<close>

datatype Entity = Entity (uri: string)

text \<open>
  The right operand of \<^verbatim>\<open>==\<close> is any Python object: an \<open>Entity\<close> or something else.
\<close>

datatype 'a object = IsEntity Entity | NotEntity 'a

text \<open>
  \<^verbatim>\<open>Entity.__eq__(self, o)\<close>. The two library functions it calls,
  \<^verbatim>\<open>urllib.parse.unquote\<close> and \<^verbatim>\<open>str.lower\<close>, are the parameters \<open>unquote\<close> and
  \<open>lower\<close>: what is proved of \<open>Entity_eq\<close> for all of them holds for the library's.
\<close>

definition Entity_eq ::
  "(string \<Rightarrow> string) \<Rightarrow> (string \<Rightarrow> string) \<Rightarrow> Entity \<Rightarrow> 'a object \<Rightarrow> bool" where
  "Entity_eq unquote lower self other =
     (case other of
        IsEntity e \<Rightarrow> lower (unquote (uri self)) = lower (unquote (uri e))
      | NotEntity x \<Rightarrow> False)"

text \<open>
  The class defines no \<^verbatim>\<open>__hash__\<close>. \<^verbatim>\<open>typing.NamedTuple\<close> builds the tuple class first
  and attaches \<^verbatim>\<open>__eq__\<close> to it afterwards, so the hash stays the one inherited from
  \<^verbatim>\<open>tuple\<close>: the interpreter's hash of the one-element tuple \<^verbatim>\<open>(uri,)\<close>, here the
  parameter \<open>tuple_hash\<close> applied to the list of the fields.
\<close>

definition Entity_hash :: "(string list \<Rightarrow> int) \<Rightarrow> Entity \<Rightarrow> int" where
  "Entity_hash tuple_hash e = tuple_hash [uri e]"

subsection \<open>The two library functions on ASCII strings\<close>

text \<open>
  On concrete inputs the parameters are \<open>ascii_unquote\<close> and \<open>ascii_lower\<close>. They are
  the library functions on the strings of \<open>ascii_scope\<close> only: the strings of ASCII
  characters in which no escape decodes to a code from 128 up. There \<^verbatim>\<open>unquote\<close>
  replaces \<open>%\<close> followed by two hexadecimal digits by the character with that code and
  leaves any other \<open>%\<close> in place, and \<^verbatim>\<open>lower\<close> maps \<open>A\<close>-\<open>Z\<close> to \<open>a\<close>-\<open>z\<close>. On
  any other string the library decodes UTF-8 and folds letters outside ASCII, which
  these two functions do not do; nothing is stated about them there.
\<close>

definition ascii_lower_char :: "char \<Rightarrow> char" where
  "ascii_lower_char c =
     (let n = (of_char c :: nat) in if 65 \<le> n \<and> n \<le> 90 then char_of (n + 32) else c)"

definition ascii_lower :: "string \<Rightarrow> string" where
  "ascii_lower s = map ascii_lower_char s"

definition hex_digit :: "char \<Rightarrow> nat option" where
  "hex_digit c =
     (let n = (of_char c :: nat) in
      if 48 \<le> n \<and> n \<le> 57 then Some (n - 48)
      else if 65 \<le> n \<and> n \<le> 70 then Some (n - 55)
      else if 97 \<le> n \<and> n \<le> 102 then Some (n - 87)
      else None)"

fun ascii_unquote :: "string \<Rightarrow> string" where
  "ascii_unquote [] = []"
| "ascii_unquote [c] = [c]"
| "ascii_unquote [c, h] = c # ascii_unquote [h]"
| "ascii_unquote (c # h1 # h2 # rest) =
     (if c = CHR ''%'' then
        (case (hex_digit h1, hex_digit h2) of
           (Some a, Some b) \<Rightarrow> char_of (16 * a + b) # ascii_unquote rest
         | _ \<Rightarrow> c # ascii_unquote (h1 # h2 # rest))
      else c # ascii_unquote (h1 # h2 # rest))"

definition ascii_scope :: "string \<Rightarrow> bool" where
  "ascii_scope s =
     (list_all (\<lambda>c. (of_char c :: nat) < 128) s \<and>
      list_all (\<lambda>c. (of_char c :: nat) < 128) (ascii_unquote s))"

section \<open>Table annotation: \<^verbatim>\<open>annotators/__init__.py\<close>\<close>

subsection \<open>Tables\<close>

text \<open>
  Modelled from the spec: \<^verbatim>\<open>data_model/dataset.py\<close>, which defines \<^verbatim>\<open>Table\<close> with its
  methods \<^verbatim>\<open>get_search_keys_cells_dict\<close> and \<^verbatim>\<open>annotate_cell\<close>, is not among the sources.
  A table has an identifier, a dataset identifier, cells addressed by (row, column), each
  with a text label, and a mutable annotation layer from cells to entities. The search
  key of a cell is its normalised label; the normalisation is the parameter \<open>normalise\<close>.
\<close>

type_synonym Cell = "nat \<times> nat"

type_synonym SearchKey = string

record Table =
  tab_id :: string
  dataset_id :: string
  cells :: "Cell list"
  label :: "Cell \<Rightarrow> string"
  annotations :: "Cell \<rightharpoonup> Entity"

text \<open>
  Modelled from the spec: \<^verbatim>\<open>Table.get_search_keys_cells_dict\<close>, the mapping from each
  search key to the cells sharing that key; a key no cell has is absent from the dictionary.
\<close>

definition get_search_keys_cells_dict ::
  "(string \<Rightarrow> SearchKey) \<Rightarrow> Table \<Rightarrow> (SearchKey \<rightharpoonup> Cell list)" where
  "get_search_keys_cells_dict normalise table =
     (\<lambda>search_key.
        let cs = filter (\<lambda>cell. normalise (label table cell) = search_key) (cells table)
        in if cs = [] then None else Some cs)"

text \<open>
  Modelled from the spec: \<^verbatim>\<open>Table.annotate_cell\<close>, which records the entity of a cell in
  the annotation layer.
\<close>

definition annotate_cell :: "Table \<Rightarrow> Cell \<Rightarrow> Entity \<Rightarrow> Table" where
  "annotate_cell table cell entity =
     table\<lparr>annotations := (annotations table)(cell \<mapsto> entity)\<rparr>"

subsection \<open>Generators and the annotation cache\<close>

text \<open>
  What \<^verbatim>\<open>get_candidates\<close> returns is iterated by a \<^verbatim>\<open>for\<close> loop: a sequence of pairs of
  a search key and its candidate URIs, best first, which ends normally or by an
  exception. An exception raised by the call itself is \<open>Throw\<close> at the head.
\<close>

datatype 'a iterable = Stop | Yield 'a "'a iterable" | Throw error

fun items :: "'a iterable \<Rightarrow> 'a list" where
  "items Stop = []"
| "items (Yield x r) = x # items r"
| "items (Throw e) = []"

fun failure :: "'a iterable \<Rightarrow> error option" where
  "failure Stop = None"
| "failure (Yield x r) = failure r"
| "failure (Throw e) = Some e"

record Generator =
  generator_id :: string
  get_candidates :: "Table \<Rightarrow> (SearchKey \<times> string list) iterable"

text \<open>
  The file system under \<^verbatim>\<open>annotations/\<close>: the file
  \<^verbatim>\<open>annotations/<dataset_id>/<generator_id>/<tab_id>.pkl\<close> is named by the triple of its
  components, and a pickled table is the table. Creating the folder writes no artifact
  and is left out. \<open>generator_calls\<close> counts the calls of \<^verbatim>\<open>get_candidates\<close>.
\<close>

record world =
  files :: "(string \<times> string \<times> string) \<rightharpoonup> Table"
  generator_calls :: nat

definition dump :: "string \<times> string \<times> string \<Rightarrow> Table \<Rightarrow> world \<Rightarrow> world" where
  "dump filename table w = w\<lparr>files := (files w)(filename \<mapsto> table)\<rparr>"

definition load :: "string \<times> string \<times> string \<Rightarrow> world \<Rightarrow> (error + Table) \<times> world" where
  "load filename w =
     (case files w filename of
        None \<Rightarrow> (Inl FileNotFoundError, w)
      | Some table \<Rightarrow> (Inr table, w))"

subsection \<open>\<^verbatim>\<open>CEAAnnotator.annotate_table\<close>\<close>

text \<open>
  The loop \<^verbatim>\<open>for search_key, candidates in results\<close>. Subscripting the dictionary with a
  key it does not hold raises \<^verbatim>\<open>KeyError\<close>. The table is updated in place; the model
  passes it along.
\<close>

fun annotate_loop ::
  "(SearchKey \<rightharpoonup> Cell list) \<Rightarrow> (SearchKey \<times> string list) iterable \<Rightarrow> Table \<Rightarrow>
   error + Table" where
  "annotate_loop search_key_cell_dict Stop table = Inr table"
| "annotate_loop search_key_cell_dict (Throw e) table = Inl e"
| "annotate_loop search_key_cell_dict (Yield (search_key, candidates) results) table =
     (case candidates of
        [] \<Rightarrow> annotate_loop search_key_cell_dict results table
      | best # others \<Rightarrow>
          (case search_key_cell_dict search_key of
             None \<Rightarrow> Inl KeyError
           | Some cs \<Rightarrow>
               annotate_loop search_key_cell_dict results
                 (fold (\<lambda>cell t. annotate_cell t cell (Entity best)) cs table)))"

definition annotate_table ::
  "(string \<Rightarrow> SearchKey) \<Rightarrow> Generator \<Rightarrow> Table \<Rightarrow> world \<Rightarrow> (error + Table) \<times> world" where
  "annotate_table normalise generator table w =
     (let filename = (dataset_id table, generator_id generator, tab_id table) in
      if files w filename = None then
        (let search_key_cell_dict = get_search_keys_cells_dict normalise table;
             w1 = w\<lparr>generator_calls := generator_calls w + 1\<rparr>
         in case annotate_loop search_key_cell_dict (get_candidates generator table) table of
              Inl e \<Rightarrow> (Inl e, w1)
            | Inr table' \<Rightarrow> load filename (dump filename table' w1))
      else load filename w)"

subsection \<open>The annotation the specification describes\<close>

text \<open>
  This definition follows the words of the specification. Given the pairs the generator
  returned, a cell of the table whose search key has a non-empty candidate list gets the
  entity of the first candidate; any other cell keeps the annotation it had, none in a
  table that was not annotated before.
\<close>

definition annotated ::
  "(string \<Rightarrow> SearchKey) \<Rightarrow> (SearchKey \<times> string list) list \<Rightarrow> Table \<Rightarrow> (Cell \<rightharpoonup> Entity)" where
  "annotated normalise results table =
     (\<lambda>cell.
        if cell \<in> set (cells table) then
          (case map_of results (normalise (label table cell)) of
             Some (best # others) \<Rightarrow> Some (Entity best)
           | _ \<Rightarrow> annotations table cell)
        else annotations table cell)"

subsection \<open>A table, two generators and an empty cache\<close>

text \<open>
  The table of the specification's example: the cells \<open>Paris\<close>, \<open>paris\<close> and \<open>London\<close>,
  with lower-casing as the normalisation. One generator finds two candidates for
  \<open>paris\<close> and none for \<open>london\<close>; the other raises after its first result.
\<close>

definition example_table :: Table where
  "example_table =
     \<lparr>tab_id = ''t1'', dataset_id = ''Round1'', cells = [(0, 0), (0, 1), (0, 2)],
      label = (\<lambda>c. if c = (0, 0) then ''Paris'' else if c = (0, 1) then ''paris'' else ''London''),
      annotations = Map.empty\<rparr>"

definition example_generator :: Generator where
  "example_generator =
     \<lparr>generator_id = ''lookup'',
      get_candidates =
        (\<lambda>t. Yield (''paris'', [''http://dbpedia.org/resource/Paris'',
                                 ''http://dbpedia.org/resource/Paris_Hilton''])
               (Yield (''london'', []) Stop))\<rparr>"

definition failing_generator :: Generator where
  "failing_generator =
     \<lparr>generator_id = ''lookup'',
      get_candidates =
        (\<lambda>t. Yield (''paris'', [''http://dbpedia.org/resource/Paris''])
               (Throw (Raised ''timeout'')))\<rparr>"

definition empty_world :: world where
  "empty_world = \<lparr>files = Map.empty, generator_calls = 0\<rparr>"

section \<open>The loop, the scalers and the whole function\<close>

lemma classify_eq:
  "classify cosine ds rc (a, b) =
     (if in_scored ds rc then (a @ [pending_entry cosine ds rc], b)
      else (a, b @ [unscored_entry rc]))"
  by (cases rc)
     (auto simp: classify_def in_scored_def scorable_def pending_entry_def unscored_entry_def
        stored_distance_def embedding_distance_def truthy_def split: option.splits)

lemma fold_classify:
  "fold (classify cosine ds) xs (a, b) =
     (a @ map (pending_entry cosine ds) (filter (in_scored ds) xs),
      b @ map unscored_entry (filter (\<lambda>rc. \<not> in_scored ds rc) xs))"
  by (induction xs arbitrary: a b) (simp_all add: classify_eq)

lemma partition_candidates_eq:
  "partition_candidates cosine ds cands =
     (map (pending_entry cosine ds) (scored_set ds cands),
      map unscored_entry (unscored_set ds cands))"
  by (simp add: partition_candidates_def fold_classify scored_set_def unscored_set_def)

lemma distances_pending:
  "distances (map (pending_entry cosine ds) xs) =
     Inr (map (\<lambda>rc. stored_distance cosine ds (snd rc)) xs)"
  by (induction xs) (simp_all add: pending_entry_def)

lemma rescore_all_pending:
  "rescore_all alpha rs dsc (map (pending_entry cosine ds) xs) =
     Inr (map (\<lambda>rc. ScoredCandidate (CandidateEmbeddings.candidate (snd rc)) (fst rc)
                      (Some (stored_distance cosine ds (snd rc)))
                      (Some (alpha * transform rs (real (fst rc))
                             + (1 - alpha) * transform dsc (stored_distance cosine ds (snd rc)))))
            xs)"
  by (induction xs) (simp_all add: pending_entry_def rescore_def)

lemma transform_min_max:
  assumes "lo \<le> y" "y \<le> hi"
  shows "transform \<lparr>scaler_scale = 1 / handle_zeros_in_scale (hi - lo),
                     scaler_min = 0 - lo * (1 / handle_zeros_in_scale (hi - lo))\<rparr> y
         = min_max lo hi y"
proof (cases "hi = lo")
  case True
  with assms have "y = lo" by simp
  with True show ?thesis
    by (simp add: transform_def handle_zeros_in_scale_def min_max_def)
next
  case False
  then show ?thesis
    by (simp add: transform_def handle_zeros_in_scale_def min_max_def diff_divide_distrib)
qed

lemma fit_nonempty: "xs \<noteq> [] \<Longrightarrow> \<exists>s. fit xs = Inr s"
  by (cases xs) (simp_all add: Let_def)

lemma fit_transform:
  assumes "fit xs = Inr s" "y \<in> set xs"
  shows "transform s y = min_max (Min (set xs)) (Max (set xs)) y"
proof -
  from assms obtain x xs' where xs: "xs = x # xs'" by (cases xs) auto
  define lo where "lo = Min (set xs)"
  define hi where "hi = Max (set xs)"
  have lo: "fold min xs' x = lo"
    unfolding lo_def xs by (rule Min.set_eq_fold [symmetric])
  have hi: "fold max xs' x = hi"
    unfolding hi_def xs by (rule Max.set_eq_fold [symmetric])
  have s: "s = \<lparr>scaler_scale = 1 / handle_zeros_in_scale (hi - lo),
                scaler_min = 0 - lo * (1 / handle_zeros_in_scale (hi - lo))\<rparr>"
    using assms(1) unfolding xs fit.simps Let_def lo hi by simp
  have "lo \<le> y" "y \<le> hi"
    using assms(2) unfolding lo_def hi_def by simp_all
  then show ?thesis
    unfolding s lo_def [symmetric] hi_def [symmetric] by (rule transform_min_max)
qed

lemma Min_ranks: "0 < n \<Longrightarrow> Min (set (map real [0..<n])) = 0"
  by (rule Min_eqI) auto

lemma Max_ranks: "0 < n \<Longrightarrow> Max (set (map real [0..<n])) = real (n - 1)"
proof (rule Max_eqI)
  fix y assume "0 < n" "y \<in> set (map real [0..<n])"
  then obtain k where "y = real k" "k < n" by auto
  then show "y \<le> real (n - 1)" by simp
next
  assume "0 < n"
  then have "n - 1 \<in> {0..<n}" by simp
  then show "real (n - 1) \<in> set (map real [0..<n])" by (simp del: of_nat_diff)
qed simp

lemma enumerate_rank: "rc \<in> set (enumerate 0 cands) \<Longrightarrow> fst rc < length cands"
  by (cases rc) (auto simp: in_set_enumerate_eq)

text \<open>
  With valid parameters the function returns, and its result is the stable sort of the
  fused scored list followed by the candidates the loop left unscored.
\<close>

lemma weighting_by_ranking_eq:
  assumes alpha: "0 \<le> alpha" "alpha \<le> 1"
    and dflt: "default_score = None \<or> (\<exists>d. default_score = Some d \<and> 0 \<le> d)"
  shows "weighting_by_ranking cosine cands alpha default_score =
           Inr (sort_key score
                  (fuse alpha (length cands) (stored_distance cosine default_score)
                     (scored_set default_score cands))
                @ map unscored_entry (unscored_set default_score cands))"
proof -
  define S where "S = scored_set default_score cands"
  define D where "D = map (\<lambda>rc. stored_distance cosine default_score (snd rc)) S"
  define U where "U = map unscored_entry (unscored_set default_score cands)"
  have part: "partition_candidates cosine default_score cands =
                (map (pending_entry cosine default_score) S, U)"
    by (simp add: partition_candidates_eq S_def U_def)
  have ok: "\<not> (truthy default_score \<and> (case default_score of None \<Rightarrow> False | Some d \<Rightarrow> \<not> 0 \<le> d))"
    using dflt by (auto simp: truthy_def)
  show ?thesis
  proof (cases "S = []")
    case True
    then have "fuse alpha (length cands) (stored_distance cosine default_score) S = []"
      by (simp add: fuse_def)
    with True show ?thesis
      unfolding weighting_by_ranking_def part S_def [symmetric] U_def [symmetric]
      using alpha ok by simp
  next
    case False
    then have ne: "cands \<noteq> []"
      by (auto simp: S_def scored_set_def)
    then obtain rs where rs: "fit (map real [0..<length cands]) = Inr rs"
      using fit_nonempty [of "map real [0..<length cands]"] by auto
    from False have "D \<noteq> []" by (simp add: D_def)
    then obtain dsc where dsc: "fit D = Inr dsc"
      using fit_nonempty by blast
    have "map (\<lambda>rc. ScoredCandidate (CandidateEmbeddings.candidate (snd rc)) (fst rc)
                      (Some (stored_distance cosine default_score (snd rc)))
                      (Some (alpha * transform rs (real (fst rc))
                             + (1 - alpha)
                               * transform dsc (stored_distance cosine default_score (snd rc))))) S
          = fuse alpha (length cands) (stored_distance cosine default_score) S"
      unfolding fuse_def Let_def D_def [symmetric]
    proof (rule map_cong [OF refl])
      fix rc assume rc: "rc \<in> set S"
      then have "fst rc < length cands"
        by (auto simp: S_def scored_set_def intro: enumerate_rank)
      then have "real (fst rc) \<in> set (map real [0..<length cands])" by simp
      from fit_transform [OF rs this] ne
      have r: "transform rs (real (fst rc)) = min_max 0 (real (length cands - 1)) (real (fst rc))"
        by (simp only: Min_ranks [of "length cands"] Max_ranks [of "length cands"]
              length_greater_0_conv [symmetric])
      have "stored_distance cosine default_score (snd rc) \<in> set D"
        using rc by (auto simp: D_def)
      from fit_transform [OF dsc this]
      have d: "transform dsc (stored_distance cosine default_score (snd rc))
               = min_max (Min (set D)) (Max (set D))
                   (stored_distance cosine default_score (snd rc))" .
      show "ScoredCandidate (CandidateEmbeddings.candidate (snd rc)) (fst rc)
              (Some (stored_distance cosine default_score (snd rc)))
              (Some (alpha * transform rs (real (fst rc))
                     + (1 - alpha)
                       * transform dsc (stored_distance cosine default_score (snd rc))))
            = ScoredCandidate (CandidateEmbeddings.candidate (snd rc)) (fst rc)
                (Some (stored_distance cosine default_score (snd rc)))
                (Some (alpha * min_max 0 (real (length cands - 1)) (real (fst rc))
                       + (1 - alpha)
                         * min_max (Min (set D)) (Max (set D))
                             (stored_distance cosine default_score (snd rc))))"
        by (simp add: r d)
    qed
    with False ne show ?thesis
      unfolding weighting_by_ranking_def part S_def [symmetric] U_def [symmetric]
      using alpha ok
      by (simp add: rs distances_pending D_def [symmetric] dsc rescore_all_pending)
  qed
qed

lemma stored_distance_None: "stored_distance cosine None = embedding_distance cosine"
  by (rule ext)
     (auto simp: stored_distance_def embedding_distance_def scorable_def split: option.splits)

lemma stored_distance_Some:
  "stored_distance cosine (Some d) = (\<lambda>c. if scorable c then embedding_distance cosine c else d)"
  by (rule ext) (simp add: stored_distance_def)

lemma scored_set_None:
  "scored_set None cands = filter (\<lambda>rc. scorable (snd rc)) (enumerate 0 cands)"
  by (simp add: scored_set_def in_scored_def [abs_def] truthy_def)

lemma unscored_set_None:
  "unscored_set None cands = filter (\<lambda>rc. \<not> scorable (snd rc)) (enumerate 0 cands)"
  by (simp add: unscored_set_def in_scored_def [abs_def] truthy_def)

lemma mset_map_partition:
  "mset (map g (filter P xs)) + mset (map g (filter (\<lambda>x. \<not> P x) xs)) = mset (map g xs)"
  by (induction xs) simp_all

lemma Min_Max_constant:
  assumes "xs \<noteq> []" "\<forall>x \<in> set xs. x = (a::real)"
  shows "Min (set xs) = a" "Max (set xs) = a"
proof -
  from assms have "set xs = {a}" by (cases xs) auto
  then show "Min (set xs) = a" "Max (set xs) = a" by simp_all
qed

text \<open>Fitted on a constant sample, the scaler divides by 1 and maps the sample to 0.\<close>

lemma fit_constant:
  assumes "xs \<noteq> []" "\<forall>x \<in> set xs. x = a"
  shows "\<exists>s. fit xs = Inr s \<and> scaler_scale s = 1 \<and> transform s a = 0"
proof -
  from assms(1) obtain x xs' where xs: "xs = x # xs'" by (cases xs) auto
  have lo: "fold min xs' x = a"
    using Min.set_eq_fold [of x xs'] Min_Max_constant(1) [OF assms] by (simp only: xs)
  have hi: "fold max xs' x = a"
    using Max.set_eq_fold [of x xs'] Min_Max_constant(2) [OF assms] by (simp only: xs)
  show ?thesis
    unfolding xs fit.simps Let_def lo hi
    by (simp add: handle_zeros_in_scale_def transform_def)
qed

lemmas evaluate =
  weighting_by_ranking_def truthy_def partition_candidates_def classify_def axis_cosine_def
  Let_def handle_zeros_in_scale_def transform_def rescore_def

section \<open>Parameter checks\<close>

text \<open>
  C8: a call with \<open>alpha\<close> outside \<open>[0, 1]\<close> fails, and a call with a negative
  \<open>default_score\<close> fails, whatever the candidates and whatever the distance function: the
  failure is decided before any candidate is looked at.
\<close>

theorem weighting_by_ranking_rejects:
  "(alpha < 0 \<or> 1 < alpha \<longrightarrow>
      weighting_by_ranking cosine candidates alpha default_score = Inl AssertionError) \<and>
   (d < 0 \<longrightarrow> weighting_by_ranking cosine candidates alpha (Some d) = Inl AssertionError)"
  by (auto simp: weighting_by_ranking_def truthy_def)

theorem weighting_by_ranking_rejects_witness:
  "(1::real) < 2 \<and>
   weighting_by_ranking axis_cosine [CandidateEmbeddings ''a'' (Some 0) (Some 1)] 2 None
     = Inl AssertionError \<and>
   (- 1::real) < 0 \<and>
   weighting_by_ranking axis_cosine [CandidateEmbeddings ''a'' (Some 0) (Some 1)] (1 / 2)
     (Some (- 1))
     = Inl AssertionError"
  using weighting_by_ranking_rejects
          [of 2 axis_cosine "[CandidateEmbeddings ''a'' (Some 0) (Some 1)]" None "- 1"]
        weighting_by_ranking_rejects
          [of "1 / 2" axis_cosine "[CandidateEmbeddings ''a'' (Some 0) (Some 1)]" None "- 1"]
  by simp

section \<open>The fallback without any scorable candidate\<close>

text \<open>
  C3: when no candidate has both embeddings (the empty list included) and no
  \<open>default_score\<close> is given, the function returns every candidate in the original order,
  at its original rank, with distance and score \<open>None\<close>. \<open>alpha\<close> is a valid weight.
\<close>

theorem no_scorable_candidates:
  assumes "0 \<le> alpha" "alpha \<le> 1" "\<forall>c \<in> set cands. \<not> scorable c"
  shows "weighting_by_ranking cosine cands alpha None =
           Inr (map unscored_entry (enumerate 0 cands))"
proof -
  have "filter (\<lambda>rc. scorable (snd rc)) (enumerate 0 cands) = []"
    using assms(3) by (auto simp: filter_empty_conv in_set_enumerate_eq)
  moreover have "filter (\<lambda>rc. \<not> scorable (snd rc)) (enumerate 0 cands) = enumerate 0 cands"
    using assms(3) by (auto simp: filter_id_conv in_set_enumerate_eq)
  ultimately show ?thesis
    using weighting_by_ranking_eq [OF assms(1,2), of None cosine cands]
    by (simp add: scored_set_None unscored_set_None fuse_def)
qed

theorem no_scorable_candidates_witness:
  "(0::real) \<le> 1 / 2 \<and> (1 / 2::real) \<le> 1 \<and>
   \<not> scorable (CandidateEmbeddings ''a'' None (Some (0::nat))) \<and>
   \<not> scorable (CandidateEmbeddings ''b'' (None :: nat option) None) \<and>
   weighting_by_ranking axis_cosine
     [CandidateEmbeddings ''a'' None (Some 0), CandidateEmbeddings ''b'' None None] (1 / 2) None
   = Inr [ScoredCandidate ''a'' 0 None None, ScoredCandidate ''b'' 1 None None]"
proof -
  have a: "(0::real) \<le> 1 / 2" and b: "(1 / 2::real) \<le> 1" by simp_all
  have c: "\<forall>c \<in> set [CandidateEmbeddings ''a'' None (Some (0::nat)),
                     CandidateEmbeddings ''b'' None None]. \<not> scorable c"
    by (simp add: scorable_def)
  from no_scorable_candidates [OF a b c, of axis_cosine] a b show ?thesis
    by (simp add: unscored_entry_def scorable_def)
qed

section \<open>The fused ranking\<close>

text \<open>
  C4 does not hold for every call. With \<open>alpha = 0\<close> and a default score, the candidate
  \<open>b\<close>, which has no context embedding, is scored with the others. With the default
  1/2 it is ranked between the scorable \<open>c\<close> and \<open>a\<close>, not after them. With the default
  3 the distances are normalised over \<open>[0, 3]\<close>, so the scorable \<open>a\<close> scores 1/3, where
  its distance normalised over the range \<open>[0, 1]\<close> of the scorable candidates is 1.
\<close>

theorem fused_ranking_with_default:
  "weighting_by_ranking axis_cosine
     [CandidateEmbeddings ''a'' (Some 0) (Some 1), CandidateEmbeddings ''b'' None (Some 0),
      CandidateEmbeddings ''c'' (Some 0) (Some 0)] 0 (Some (1 / 2))
   = Inr [ScoredCandidate ''c'' 2 (Some 0) (Some 0),
          ScoredCandidate ''b'' 1 (Some (1 / 2)) (Some (1 / 2)),
          ScoredCandidate ''a'' 0 (Some 1) (Some 1)] \<and>
   weighting_by_ranking axis_cosine
     [CandidateEmbeddings ''a'' (Some 0) (Some 1), CandidateEmbeddings ''b'' None (Some 0),
      CandidateEmbeddings ''c'' (Some 0) (Some 0)] 0 (Some 3)
   = Inr [ScoredCandidate ''c'' 2 (Some 0) (Some 0),
          ScoredCandidate ''a'' 0 (Some 1) (Some (1 / 3)),
          ScoredCandidate ''b'' 1 (Some 3) (Some 1)]"
  by (simp add: evaluate)

text \<open>
  C4, amended: without a \<open>default_score\<close>, the result is a list \<open>ranked\<close> followed by the
  unscorable candidates in original order, without distance and score. \<open>ranked\<close> holds
  exactly the scorable candidates, each with its cosine distance and with the score
  \<open>alpha * r + (1 - alpha) * d\<close>, where \<open>r\<close> is its original rank min-max normalised over
  \<open>[0, length cands - 1]\<close> and \<open>d\<close> its distance min-max normalised over the range of the
  distances of the scorable candidates. \<open>ranked\<close> is ascending in the score, and
  candidates of equal score keep their original relative order.
\<close>

theorem fused_ranking:
  assumes "0 \<le> alpha" "alpha \<le> 1"
  shows "\<exists>ranked.
           weighting_by_ranking cosine cands alpha None =
             Inr (ranked @
                  map unscored_entry (filter (\<lambda>rc. \<not> scorable (snd rc)) (enumerate 0 cands))) \<and>
           mset ranked =
             mset (fuse alpha (length cands) (embedding_distance cosine)
                     (filter (\<lambda>rc. scorable (snd rc)) (enumerate 0 cands))) \<and>
           sorted (map score ranked) \<and>
           (\<forall>k. filter (\<lambda>s. score s = k) ranked =
                filter (\<lambda>s. score s = k)
                  (fuse alpha (length cands) (embedding_distance cosine)
                     (filter (\<lambda>rc. scorable (snd rc)) (enumerate 0 cands))))"
  using weighting_by_ranking_eq [OF assms(1,2), of None cosine cands]
  by (simp add: scored_set_None unscored_set_None stored_distance_None sort_key_stable)

theorem fused_ranking_witness:
  "(0::real) \<le> 1 / 4 \<and> (1 / 4::real) \<le> 1 \<and>
   (\<exists>ranked.
      weighting_by_ranking axis_cosine
        [CandidateEmbeddings ''a'' (Some 0) (Some 1), CandidateEmbeddings ''b'' None (Some 0),
         CandidateEmbeddings ''c'' (Some 0) (Some 0)] (1 / 4) None
      = Inr (ranked @ [ScoredCandidate ''b'' 1 None None]) \<and>
      mset ranked = mset [ScoredCandidate ''a'' 0 (Some 1) (Some (3 / 4)),
                          ScoredCandidate ''c'' 2 (Some 0) (Some (1 / 4))] \<and>
      sorted (map score ranked))"
proof -
  have a: "(0::real) \<le> 1 / 4" and b: "(1 / 4::real) \<le> 1" by simp_all
  from fused_ranking [OF a b, of axis_cosine
      "[CandidateEmbeddings ''a'' (Some 0) (Some 1), CandidateEmbeddings ''b'' None (Some 0),
        CandidateEmbeddings ''c'' (Some 0) (Some 0)]"]
  obtain ranked where
    "weighting_by_ranking axis_cosine
        [CandidateEmbeddings ''a'' (Some 0) (Some 1), CandidateEmbeddings ''b'' None (Some 0),
         CandidateEmbeddings ''c'' (Some 0) (Some 0)] (1 / 4) None
      = Inr (ranked @ [ScoredCandidate ''b'' 1 None None])"
    "mset ranked = mset [ScoredCandidate ''a'' 0 (Some 1) (Some (3 / 4)),
                          ScoredCandidate ''c'' 2 (Some 0) (Some (1 / 4))]"
    "sorted (map score ranked)"
    by (auto simp: scorable_def unscored_entry_def fuse_def embedding_distance_def
          axis_cosine_def min_max_def)
  with a b show ?thesis by blast
qed

text \<open>The same input, evaluated: the better distance of \<open>c\<close> outweighs its rank.\<close>

lemma fused_ranking_example:
  "weighting_by_ranking axis_cosine
     [CandidateEmbeddings ''a'' (Some 0) (Some 1), CandidateEmbeddings ''b'' None (Some 0),
      CandidateEmbeddings ''c'' (Some 0) (Some 0)] (1 / 4) None
   = Inr [ScoredCandidate ''c'' 2 (Some 0) (Some (1 / 4)),
          ScoredCandidate ''a'' 0 (Some 1) (Some (3 / 4)),
          ScoredCandidate ''b'' 1 None None]"
  by (simp add: evaluate)

section \<open>A default score for candidates without embeddings\<close>

text \<open>
  C2 does not hold as stated. With \<open>default_score = 0.9\<close> and \<open>alpha = 0.5\<close>, candidate
  \<open>b\<close>, which has no context embedding, gets 0.9 as its distance; its score is the fused
  value 1, not 0.9.
\<close>

theorem default_score_is_not_the_score:
  "weighting_by_ranking axis_cosine
     [CandidateEmbeddings ''a'' (Some 0) (Some 0), CandidateEmbeddings ''b'' None (Some 0)]
     (1 / 2) (Some (9 / 10))
   = Inr [ScoredCandidate ''a'' 0 (Some 0) (Some 0),
          ScoredCandidate ''b'' 1 (Some (9 / 10)) (Some 1)]"
  by (simp add: evaluate)

text \<open>
  C2, amended: with a \<open>default_score\<close> above zero, a candidate missing an embedding gets
  the default as its distance, in place of a cosine distance, and every candidate is
  scored: the result holds exactly the input candidates, each with the fused score of
  its rank and its distance, the distance normalised over the range of all distances,
  defaults included. The result is ascending in the score, candidates of equal score in
  their original order, so such a candidate is ranked among the scorable ones.
\<close>

theorem default_score_merged:
  assumes "0 \<le> alpha" "alpha \<le> 1" "0 < d"
  shows "\<exists>ranked.
           weighting_by_ranking cosine cands alpha (Some d) = Inr ranked \<and>
           mset ranked =
             mset (fuse alpha (length cands)
                     (\<lambda>c. if scorable c then embedding_distance cosine c else d)
                     (enumerate 0 cands)) \<and>
           sorted (map score ranked) \<and>
           (\<forall>k. filter (\<lambda>s. score s = k) ranked =
                filter (\<lambda>s. score s = k)
                  (fuse alpha (length cands)
                     (\<lambda>c. if scorable c then embedding_distance cosine c else d)
                     (enumerate 0 cands)))"
proof -
  have t: "truthy (Some d)" using assms(3) by (simp add: truthy_def)
  have S: "scored_set (Some d) cands = enumerate 0 cands"
    by (simp add: scored_set_def in_scored_def [abs_def] t)
  have U: "unscored_set (Some d) cands = []"
    by (simp add: unscored_set_def in_scored_def [abs_def] t)
  have "Some d = None \<or> (\<exists>d'. Some d = Some d' \<and> 0 \<le> d')" using assms(3) by simp
  from weighting_by_ranking_eq [OF assms(1,2) this, of cosine cands]
  show ?thesis
    by (simp add: S U stored_distance_Some sort_key_stable)
qed

theorem default_score_merged_witness:
  "(0::real) \<le> 1 / 2 \<and> (1 / 2::real) \<le> 1 \<and> (0::real) < 1 / 10 \<and>
   (\<exists>ranked.
      weighting_by_ranking axis_cosine
        [CandidateEmbeddings ''a'' (Some 0) (Some 1), CandidateEmbeddings ''b'' None (Some 0)]
        (1 / 2) (Some (1 / 10))
      = Inr ranked \<and>
      mset ranked = mset [ScoredCandidate ''a'' 0 (Some 1) (Some (1 / 2)),
                          ScoredCandidate ''b'' 1 (Some (1 / 10)) (Some (1 / 2))] \<and>
      sorted (map score ranked))"
proof -
  have a: "(0::real) \<le> 1 / 2" and b: "(1 / 2::real) \<le> 1" and c: "(0::real) < 1 / 10"
    by simp_all
  from default_score_merged [OF a b c, of axis_cosine
      "[CandidateEmbeddings ''a'' (Some 0) (Some 1), CandidateEmbeddings ''b'' None (Some 0)]"]
  obtain ranked where
    "weighting_by_ranking axis_cosine
        [CandidateEmbeddings ''a'' (Some 0) (Some 1), CandidateEmbeddings ''b'' None (Some 0)]
        (1 / 2) (Some (1 / 10))
      = Inr ranked"
    "mset ranked = mset [ScoredCandidate ''a'' 0 (Some 1) (Some (1 / 2)),
                          ScoredCandidate ''b'' 1 (Some (1 / 10)) (Some (1 / 2))]"
    "sorted (map score ranked)"
    by (auto simp: scorable_def fuse_def embedding_distance_def axis_cosine_def min_max_def)
  with a b c show ?thesis by blast
qed

text \<open>
  A default of zero is false as a Python condition: the candidate without embeddings is
  left unscored, as if no default had been given.
\<close>

lemma default_score_zero_example:
  "weighting_by_ranking axis_cosine
     [CandidateEmbeddings ''a'' (Some 0) (Some 0), CandidateEmbeddings ''b'' None (Some 0)]
     (1 / 2) (Some 0)
   = Inr [ScoredCandidate ''a'' 0 (Some 0) (Some 0), ScoredCandidate ''b'' 1 None None]"
  by (simp add: evaluate)

section \<open>A range of width zero\<close>

lemma fit_scale:
  assumes "fit xs = Inr s"
  shows "scaler_scale s = 1 / handle_zeros_in_scale (Max (set xs) - Min (set xs))"
proof -
  from assms obtain x xs' where xs: "xs = x # xs'" by (cases xs) auto
  have lo: "fold min xs' x = Min (set (x # xs'))"
    by (rule Min.set_eq_fold [symmetric])
  have hi: "fold max xs' x = Max (set (x # xs'))"
    by (rule Max.set_eq_fold [symmetric])
  from assms show ?thesis
    unfolding xs fit.simps Let_def lo hi by auto
qed

text \<open>
  C9: let \<open>scored\<close> be the list the loop of the function fills, not empty, all of its
  entries with the same distance \<open>d\<close> (a single scorable candidate is the simplest
  case). The list of distances \<open>D\<close> handed to the distance scaler then has a range of
  width zero; the scaler divides by \<open>handle_zeros_in_scale 0\<close>, which is 1 and not 0,
  its scale is 1 and it maps every distance to 0. The rank scaler divides by 1 as well
  when there is a single candidate. The function returns, and every scored candidate
  is in the result with a score whose distance component is 0.
\<close>

theorem constant_distance_normalised:
  assumes "0 \<le> alpha" "alpha \<le> 1"
    and "default_score = None \<or> (\<exists>x. default_score = Some x \<and> 0 \<le> x)"
    and "partition_candidates cosine default_score cands = (scored, non_scored)"
    and "scored \<noteq> []"
    and "\<forall>s \<in> set scored. distance s = Some d"
  shows "\<exists>D distance_scaler rank_scaler out.
           distances scored = Inr D \<and> Max (set D) - Min (set D) = 0 \<and>
           handle_zeros_in_scale (Max (set D) - Min (set D)) = 1 \<and>
           fit D = Inr distance_scaler \<and> scaler_scale distance_scaler = 1 \<and>
           (\<forall>x \<in> set D. transform distance_scaler x = 0) \<and>
           fit (map real [0..<length cands]) = Inr rank_scaler \<and>
           scaler_scale rank_scaler
             = (if length cands = 1 then 1 else 1 / real (length cands - 1)) \<and>
           weighting_by_ranking cosine cands alpha default_score = Inr out \<and>
           (\<forall>s \<in> set scored.
              ScoredCandidate (ScoredCandidate.candidate s) (original_rank s) (Some d)
                (Some (alpha * min_max 0 (real (length cands - 1)) (real (original_rank s))
                       + (1 - alpha) * 0))
              \<in> set out)"
proof -
  let ?S = "scored_set default_score cands"
  let ?D = "map (\<lambda>rc. stored_distance cosine default_score (snd rc)) ?S"
  let ?F = "fuse alpha (length cands) (stored_distance cosine default_score) ?S"
  let ?out = "sort_key score ?F @ map unscored_entry (unscored_set default_score cands)"
  from assms(4) have scored: "scored = map (pending_entry cosine default_score) ?S"
    by (simp add: partition_candidates_eq)
  with assms(5) have S: "?S \<noteq> []" by auto
  then have D: "?D \<noteq> []" by simp
  from S have cands: "cands \<noteq> []" by (auto simp: scored_set_def)
  have all_d: "\<forall>x \<in> set ?D. x = d"
    using assms(6) unfolding scored by (auto simp: pending_entry_def)
  have dist: "distances scored = Inr ?D"
    unfolding scored by (rule distances_pending)
  from Min_Max_constant [OF D all_d]
  have range: "Max (set ?D) - Min (set ?D) = 0" by simp
  then have guard: "handle_zeros_in_scale (Max (set ?D) - Min (set ?D)) = 1"
    by (simp add: handle_zeros_in_scale_def)
  from fit_constant [OF D all_d] obtain ds where
    ds: "fit ?D = Inr ds" "scaler_scale ds = 1" "transform ds d = 0" by blast
  from ds(3) all_d have zero: "\<forall>x \<in> set ?D. transform ds x = 0" by simp
  from cands obtain rs where rs: "fit (map real [0..<length cands]) = Inr rs"
    using fit_nonempty [of "map real [0..<length cands]"] by auto
  from cands have pos: "0 < length cands" by simp
  have rscale: "scaler_scale rs = (if length cands = 1 then 1 else 1 / real (length cands - 1))"
  proof (cases "length cands = 1")
    case True
    then show ?thesis
      unfolding fit_scale [OF rs] Min_ranks [OF pos] Max_ranks [OF pos]
      by (simp add: handle_zeros_in_scale_def)
  next
    case False
    with pos have "1 < length cands" by linarith
    with False show ?thesis
      unfolding fit_scale [OF rs] Min_ranks [OF pos] Max_ranks [OF pos]
      by (simp add: handle_zeros_in_scale_def)
  qed
  have out: "weighting_by_ranking cosine cands alpha default_score = Inr ?out"
    by (rule weighting_by_ranking_eq [OF assms(1,2,3)])
  have "ScoredCandidate (ScoredCandidate.candidate s) (original_rank s) (Some d)
          (Some (alpha * min_max 0 (real (length cands - 1)) (real (original_rank s))
                 + (1 - alpha) * 0))
        \<in> set ?out"
    if s: "s \<in> set scored" for s
  proof -
    from s obtain rc where rc: "rc \<in> set ?S" and s_rc: "s = pending_entry cosine default_score rc"
      unfolding scored by auto
    from rc all_d have st: "stored_distance cosine default_score (snd rc) = d" by simp
    from Min_Max_constant [OF D all_d]
    have "min_max (Min (set ?D)) (Max (set ?D)) d = 0"
      by (simp add: min_max_def)
    then have "ScoredCandidate (ScoredCandidate.candidate s) (original_rank s) (Some d)
          (Some (alpha * min_max 0 (real (length cands - 1)) (real (original_rank s))
                 + (1 - alpha) * 0))
        = (\<lambda>rc. ScoredCandidate (CandidateEmbeddings.candidate (snd rc)) (fst rc)
                      (Some (stored_distance cosine default_score (snd rc)))
                      (Some (alpha * min_max 0 (real (length cands - 1)) (real (fst rc))
                             + (1 - alpha) * min_max (Min (set ?D)) (Max (set ?D))
                                 (stored_distance cosine default_score (snd rc))))) rc"
      by (simp add: s_rc pending_entry_def st)
    also have "\<dots> \<in> set ?F"
      unfolding fuse_def Let_def set_map using rc by (rule imageI)
    finally show ?thesis by simp
  qed
  with dist range guard ds(1,2) zero rs rscale out show ?thesis by blast
qed

theorem constant_distance_normalised_witness:
  "(0::real) \<le> 1 / 2 \<and> (1 / 2::real) \<le> 1 \<and>
   partition_candidates axis_cosine None
     [CandidateEmbeddings ''a'' (Some 0) (Some 1), CandidateEmbeddings ''b'' None None,
      CandidateEmbeddings ''c'' (Some 2) (Some 3)]
   = ([ScoredCandidate ''a'' 0 (Some 1) None, ScoredCandidate ''c'' 2 (Some 1) None],
      [ScoredCandidate ''b'' 1 None None]) \<and>
   [ScoredCandidate ''a'' 0 (Some 1) None, ScoredCandidate ''c'' 2 (Some 1) None] \<noteq> [] \<and>
   distance (ScoredCandidate ''a'' 0 (Some 1) None) = Some 1 \<and>
   distance (ScoredCandidate ''c'' 2 (Some 1) None) = Some 1 \<and>
   (\<exists>distance_scaler out.
      fit [1, 1] = Inr distance_scaler \<and> scaler_scale distance_scaler = 1 \<and>
      transform distance_scaler 1 = 0 \<and>
      weighting_by_ranking axis_cosine
        [CandidateEmbeddings ''a'' (Some 0) (Some 1), CandidateEmbeddings ''b'' None None,
         CandidateEmbeddings ''c'' (Some 2) (Some 3)] (1 / 2) None
      = Inr out \<and>
      ScoredCandidate ''a'' 0 (Some 1) (Some 0) \<in> set out \<and>
      ScoredCandidate ''c'' 2 (Some 1) (Some (1 / 2)) \<in> set out)"
proof -
  let ?cands = "[CandidateEmbeddings ''a'' (Some 0) (Some 1), CandidateEmbeddings ''b'' None None,
                 CandidateEmbeddings ''c'' (Some (2::nat)) (Some 3)]"
  let ?scored = "[ScoredCandidate ''a'' 0 (Some 1) None, ScoredCandidate ''c'' 2 (Some 1) None]"
  have a: "(0::real) \<le> 1 / 2" and b: "(1 / 2::real) \<le> 1" by simp_all
  have n: "(None :: real option) = None \<or> (\<exists>x. (None :: real option) = Some x \<and> 0 \<le> x)"
    by simp
  have p: "partition_candidates axis_cosine None ?cands
           = (?scored, [ScoredCandidate ''b'' 1 None None])"
    by (simp add: partition_candidates_def classify_def truthy_def axis_cosine_def)
  have ne: "?scored \<noteq> []" by simp
  have d: "\<forall>s \<in> set ?scored. distance s = Some 1" by simp
  from constant_distance_normalised [OF a b n p ne d]
  obtain D distance_scaler out where
    D: "distances ?scored = Inr D"
    and f: "fit D = Inr distance_scaler" "scaler_scale distance_scaler = 1"
      "\<forall>x \<in> set D. transform distance_scaler x = 0"
    and out: "weighting_by_ranking axis_cosine ?cands (1 / 2) None = Inr out"
    and all: "\<forall>s \<in> set ?scored.
              ScoredCandidate (ScoredCandidate.candidate s) (original_rank s) (Some 1)
                (Some (1 / 2 * min_max 0 (real (length ?cands - 1)) (real (original_rank s))
                       + (1 - 1 / 2) * 0))
              \<in> set out"
    by blast
  from D have D1: "D = [1, 1]" by simp
  from all have "ScoredCandidate ''a'' 0 (Some 1) (Some 0) \<in> set out"
    and "ScoredCandidate ''c'' 2 (Some 1) (Some (1 / 2)) \<in> set out"
    by (simp_all add: min_max_def)
  with a b p ne f out show ?thesis unfolding D1 by auto
qed

text \<open>A single scorable candidate: both ranges have width zero, and its score is 0.\<close>

lemma single_candidate_example:
  "weighting_by_ranking axis_cosine [CandidateEmbeddings ''a'' (Some 0) (Some 1)] (1 / 2) None
   = Inr [ScoredCandidate ''a'' 0 (Some 1) (Some 0)]"
  by (simp add: evaluate)

section \<open>The result is a permutation of the input\<close>

text \<open>
  C10: with a valid \<open>alpha\<close> and a \<open>default_score\<close> that is absent or not negative, the
  function returns a list as long as the input, and the pairs of original rank and
  candidate of its entries are, counted with multiplicity, the candidates of the input
  numbered from 0 in input order.
\<close>

theorem weighting_by_ranking_permutation:
  assumes "0 \<le> alpha" "alpha \<le> 1"
    and "default_score = None \<or> (\<exists>d. default_score = Some d \<and> 0 \<le> d)"
  shows "\<exists>out. weighting_by_ranking cosine cands alpha default_score = Inr out \<and>
           length out = length cands \<and>
           mset (map (\<lambda>s. (original_rank s, ScoredCandidate.candidate s)) out) =
             mset (enumerate 0 (map CandidateEmbeddings.candidate cands))"
proof -
  let ?f = "\<lambda>s. (original_rank s, ScoredCandidate.candidate s)"
  let ?g = "\<lambda>rc. (fst rc, CandidateEmbeddings.candidate (snd rc))"
  let ?S = "scored_set default_score cands" and ?U = "unscored_set default_score cands"
  let ?F = "fuse alpha (length cands) (stored_distance cosine default_score) ?S"
  have F: "map ?f ?F = map ?g ?S"
    by (simp add: fuse_def Let_def)
  have U: "map ?f (map unscored_entry ?U) = map ?g ?U"
    by (simp add: unscored_entry_def)
  have "mset (map ?f (sort_key score ?F @ map unscored_entry ?U))
        = mset (map ?f ?F) + mset (map ?f (map unscored_entry ?U))"
    by (simp del: map_map)
  also have "\<dots> = mset (map ?g ?S) + mset (map ?g ?U)"
    by (simp only: F U)
  also have "\<dots> = mset (map ?g (enumerate 0 cands))"
    unfolding scored_set_def unscored_set_def by (rule mset_map_partition)
  also have "map ?g (enumerate 0 cands) = enumerate 0 (map CandidateEmbeddings.candidate cands)"
    by (simp add: enumerate_eq_zip zip_map2 case_prod_unfold)
  finally have m: "mset (map ?f (sort_key score ?F @ map unscored_entry ?U))
        = mset (enumerate 0 (map CandidateEmbeddings.candidate cands))" .
  from arg_cong [OF m, of size]
  have l: "length (sort_key score ?F @ map unscored_entry ?U) = length cands"
    by (simp only: size_mset length_map length_enumerate)
  from weighting_by_ranking_eq [OF assms, of cosine cands] l m
  show ?thesis by blast
qed

theorem weighting_by_ranking_permutation_witness:
  "(0::real) \<le> 1 / 2 \<and> (1 / 2::real) \<le> 1 \<and> (0::real) \<le> 9 / 10 \<and>
   (\<exists>out.
      weighting_by_ranking axis_cosine
        [CandidateEmbeddings ''a'' (Some 0) (Some 1), CandidateEmbeddings ''b'' None None,
         CandidateEmbeddings ''c'' (Some 0) (Some 0)] (1 / 2) (Some (9 / 10))
      = Inr out \<and>
      length out = 3 \<and>
      mset (map (\<lambda>s. (original_rank s, ScoredCandidate.candidate s)) out)
        = mset [(0, ''a''), (1, ''b''), (2, ''c'')])"
proof -
  have a: "(0::real) \<le> 1 / 2" and b: "(1 / 2::real) \<le> 1" and c: "(0::real) \<le> 9 / 10"
    by simp_all
  from c have d: "Some (9 / 10 :: real) = None \<or> (\<exists>d. Some (9 / 10 :: real) = Some d \<and> 0 \<le> d)"
    by blast
  from weighting_by_ranking_permutation [OF a b d, of axis_cosine
      "[CandidateEmbeddings ''a'' (Some 0) (Some 1), CandidateEmbeddings ''b'' None None,
        CandidateEmbeddings ''c'' (Some 0) (Some 0)]"]
  obtain out where
    "weighting_by_ranking axis_cosine
        [CandidateEmbeddings ''a'' (Some 0) (Some 1), CandidateEmbeddings ''b'' None None,
         CandidateEmbeddings ''c'' (Some 0) (Some 0)] (1 / 2) (Some (9 / 10))
      = Inr out"
    "length out = 3"
    "mset (map (\<lambda>s. (original_rank s, ScoredCandidate.candidate s)) out)
        = mset [(0, ''a''), (1, ''b''), (2, ''c'')]"
    by auto
  with a b c show ?thesis by blast
qed

section \<open>Entity equality and hash\<close>

text \<open>Whatever the two library functions compute, equality is as follows.\<close>

lemma Entity_eq_normalised:
  "Entity_eq unquote lower a (IsEntity b) \<longleftrightarrow>
     lower (unquote (uri a)) = lower (unquote (uri b))"
  by (simp add: Entity_eq_def)

lemma Entity_eq_sym:
  "Entity_eq unquote lower a (IsEntity b) = Entity_eq unquote lower b (IsEntity a)"
  by (auto simp: Entity_eq_def)

lemma Entity_eq_NotEntity: "\<not> Entity_eq unquote lower a (NotEntity x)"
  by (simp add: Entity_eq_def)

lemma ascii_scope_examples:
  "ascii_scope ''http://x.org/Foo''" "ascii_scope ''http://x.org/foo''"
  "ascii_scope ''http://x.org/Foo%20Bar''" "ascii_scope ''http://x.org/Foo Bar''"
  by code_simp+

lemma Entity_eq_case_example:
  "Entity_eq ascii_unquote ascii_lower
     (Entity ''http://x.org/Foo'') (IsEntity (Entity ''http://x.org/foo''))"
proof -
  have "ascii_lower (ascii_unquote ''http://x.org/Foo'')
        = ascii_lower (ascii_unquote ''http://x.org/foo'')"
    by code_simp
  then show ?thesis by (simp add: Entity_eq_def)
qed

lemma Entity_eq_percent_example:
  "Entity_eq ascii_unquote ascii_lower
     (Entity ''http://x.org/Foo%20Bar'') (IsEntity (Entity ''http://x.org/Foo Bar''))"
proof -
  have "ascii_lower (ascii_unquote ''http://x.org/Foo%20Bar'')
        = ascii_lower (ascii_unquote ''http://x.org/Foo Bar'')"
    by code_simp
  then show ?thesis by (simp add: Entity_eq_def)
qed

text \<open>
  C5: equality is symmetric, compares the percent-decoded, lower-cased URIs and is false
  for a non-entity (the three lemmas above). The hash does not follow: \<open>Entity\<close>
  overrides \<^verbatim>\<open>__eq__\<close> only, so the hash of an entity is the tuple hash of its raw URI.
  \<^verbatim>\<open>Entity("http://x.org/Foo")\<close> and \<^verbatim>\<open>Entity("http://x.org/foo")\<close> are equal, and their
  hashes are the hashes of two different tuples of strings.
\<close>

theorem Entity_hash_ignores_normalisation:
  "Entity_eq ascii_unquote ascii_lower
     (Entity ''http://x.org/Foo'') (IsEntity (Entity ''http://x.org/foo'')) \<and>
   Entity_hash tuple_hash (Entity ''http://x.org/Foo'') = tuple_hash [''http://x.org/Foo''] \<and>
   Entity_hash tuple_hash (Entity ''http://x.org/foo'') = tuple_hash [''http://x.org/foo'']"
  using Entity_eq_case_example by (simp add: Entity_hash_def)

text \<open>A hash of tuples that tells the two URIs apart tells the two equal entities apart.\<close>

lemma Entity_hash_not_consistent:
  "\<exists>tuple_hash a b.
     Entity_eq ascii_unquote ascii_lower a (IsEntity b) \<and>
     Entity_hash tuple_hash a \<noteq> Entity_hash tuple_hash b"
proof -
  let ?h = "\<lambda>xs. if xs = [''http://x.org/Foo''] then (1::int) else 0"
  have "Entity_hash ?h (Entity ''http://x.org/Foo'') \<noteq> Entity_hash ?h (Entity ''http://x.org/foo'')"
    by (simp add: Entity_hash_def)
  with Entity_eq_case_example show ?thesis by blast
qed

section \<open>The annotation loop\<close>

lemma fold_annotate_cell:
  "fold (\<lambda>cell t. annotate_cell t cell e) cs t =
     t\<lparr>annotations := (\<lambda>c. if c \<in> set cs then Some e else annotations t c)\<rparr>"
proof (induction cs arbitrary: t)
  case Nil
  then show ?case by simp
next
  case (Cons c cs)
  have H: "(\<lambda>x. if x \<in> set cs then Some e else annotations (annotate_cell t c e) x)
        = (\<lambda>x. if x \<in> set (c # cs) then Some e else annotations t x)"
    by (rule ext) (simp add: annotate_cell_def)
  have "fold (\<lambda>cell t. annotate_cell t cell e) (c # cs) t
        = fold (\<lambda>cell t. annotate_cell t cell e) cs (annotate_cell t c e)"
    by simp
  also have "\<dots> = (annotate_cell t c e)
        \<lparr>annotations := (\<lambda>x. if x \<in> set cs then Some e else annotations (annotate_cell t c e) x)\<rparr>"
    by (rule Cons.IH)
  also have "\<dots> = (annotate_cell t c e)
        \<lparr>annotations := (\<lambda>x. if x \<in> set (c # cs) then Some e else annotations t x)\<rparr>"
    by (simp only: H)
  also have "\<dots> = t\<lparr>annotations := (\<lambda>x. if x \<in> set (c # cs) then Some e else annotations t x)\<rparr>"
    by (simp add: annotate_cell_def)
  finally show ?case .
qed

lemma dict_Some_iff:
  "get_search_keys_cells_dict normalise t k = Some cs \<longleftrightarrow>
     cs = filter (\<lambda>c. normalise (label t c) = k) (cells t) \<and> cs \<noteq> []"
  by (auto simp: get_search_keys_cells_dict_def Let_def)

lemma dict_dom:
  "dom (get_search_keys_cells_dict normalise t) = (\<lambda>c. normalise (label t c)) ` set (cells t)"
  by (auto simp: get_search_keys_cells_dict_def Let_def dom_def filter_empty_conv)

text \<open>
  The loop runs on the dictionary of the table \<open>t\<close> it was called with, while the table
  it updates, \<open>u\<close>, differs from \<open>t\<close> in its annotations only.
\<close>

lemma annotate_loop_ok:
  assumes "failure r = None" "distinct (map fst (items r))"
    and "\<forall>(k, cs) \<in> set (items r). cs \<noteq> [] \<longrightarrow> k \<in> (\<lambda>c. normalise (label t c)) ` set (cells t)"
    and "cells u = cells t" "label u = label t"
  shows "annotate_loop (get_search_keys_cells_dict normalise t) r u =
           Inr (u\<lparr>annotations := annotated normalise (items r) u\<rparr>)"
  using assms
proof (induction r arbitrary: u)
  case Stop
  have "annotated normalise [] u = annotations u"
    by (rule ext) (simp add: annotated_def)
  then show ?case by simp
next
  case (Throw e)
  then show ?case by simp
next
  case (Yield x r)
  obtain k cands where x: "x = (k, cands)" by (cases x)
  from Yield.prems x have fresh: "map_of (items r) k = None"
    by (simp add: map_of_eq_None_iff)
  show ?case
  proof (cases cands)
    case Nil
    have "annotated normalise ((k, []) # items r) u = annotated normalise (items r) u"
      by (rule ext) (simp add: annotated_def fresh)
    moreover have "annotate_loop (get_search_keys_cells_dict normalise t) r u =
           Inr (u\<lparr>annotations := annotated normalise (items r) u\<rparr>)"
      using Yield.prems x by (intro Yield.IH) auto
    ultimately show ?thesis by (simp add: x Nil)
  next
    case (Cons best others)
    let ?cs = "filter (\<lambda>c. normalise (label t c) = k) (cells t)"
    let ?u = "u\<lparr>annotations := (\<lambda>c. if c \<in> set ?cs then Some (Entity best) else annotations u c)\<rparr>"
    from Yield.prems(3) x Cons have "k \<in> (\<lambda>c. normalise (label t c)) ` set (cells t)"
      by auto
    then have "?cs \<noteq> []" by (auto simp: filter_empty_conv)
    then have d: "get_search_keys_cells_dict normalise t k = Some ?cs"
      by (simp add: dict_Some_iff)
    have ih: "annotate_loop (get_search_keys_cells_dict normalise t) r ?u =
           Inr (?u\<lparr>annotations := annotated normalise (items r) ?u\<rparr>)"
      using Yield.prems x by (intro Yield.IH) auto
    have "annotated normalise (items r) ?u = annotated normalise ((k, best # others) # items r) u"
      by (rule ext)
         (auto simp: annotated_def fresh Yield.prems(4,5) split: option.splits list.splits)
    with ih show ?thesis
      by (simp add: x Cons d fold_annotate_cell)
  qed
qed

lemma annotate_table_hit:
  "files w (dataset_id t, generator_id g, tab_id t) = Some a \<Longrightarrow>
   annotate_table normalise g t w = (Inr a, w)"
  by (simp add: annotate_table_def load_def)

lemma annotate_table_miss_eq:
  assumes "files w (dataset_id t, generator_id g, tab_id t) = None"
    and "failure (get_candidates g t) = None"
    and "distinct (map fst (items (get_candidates g t)))"
    and "\<forall>(k, cs) \<in> set (items (get_candidates g t)).
           cs \<noteq> [] \<longrightarrow> k \<in> (\<lambda>c. normalise (label t c)) ` set (cells t)"
  shows "annotate_table normalise g t w =
           (Inr (t\<lparr>annotations := annotated normalise (items (get_candidates g t)) t\<rparr>),
            w\<lparr>generator_calls := generator_calls w + 1,
              files := (files w)
                ((dataset_id t, generator_id g, tab_id t) \<mapsto>
                 t\<lparr>annotations := annotated normalise (items (get_candidates g t)) t\<rparr>)\<rparr>)"
  using assms(1) annotate_loop_ok [OF assms(2,3,4) refl refl]
  by (simp add: annotate_table_def Let_def load_def dump_def)

lemma annotate_table_returns:
  assumes "annotate_table normalise g t w = (Inr a, w')"
  shows "files w' (dataset_id t, generator_id g, tab_id t) = Some a \<and>
         generator_calls w' \<le> generator_calls w + 1"
  using assms
  by (auto simp: annotate_table_def Let_def load_def dump_def
           split: if_splits sum.splits option.splits)

lemma ascii_lower_labels:
  "ascii_lower ''Paris'' = ''paris''" "ascii_lower ''paris'' = ''paris''" "ascii_lower ''London'' = ''london''"
  by code_simp+

section \<open>Cache hits\<close>

text \<open>
  C1: when the cache holds an artifact for the table's dataset, the generator and the
  table identifier, \<open>annotate_table\<close> returns that artifact and leaves the world as it
  is, the count of generator calls included. Hence, when a call returns, a second call
  for the same table in the world the first one left returns the same artifact, which
  is the one stored, changes nothing, and the generator was called at most once.
\<close>

theorem annotate_table_idempotent:
  "(files w (dataset_id t, generator_id g, tab_id t) = Some a \<longrightarrow>
      annotate_table normalise g t w = (Inr a, w)) \<and>
   (annotate_table normalise g t w = (Inr a, w') \<and>
    dataset_id t' = dataset_id t \<and> tab_id t' = tab_id t \<longrightarrow>
      annotate_table normalise g t' w' = (Inr a, w') \<and>
      files w' (dataset_id t, generator_id g, tab_id t) = Some a \<and>
      generator_calls w' \<le> generator_calls w + 1)"
proof (intro conjI impI)
  assume "files w (dataset_id t, generator_id g, tab_id t) = Some a"
  then show "annotate_table normalise g t w = (Inr a, w)" by (rule annotate_table_hit)
next
  assume h: "annotate_table normalise g t w = (Inr a, w') \<and>
    dataset_id t' = dataset_id t \<and> tab_id t' = tab_id t"
  then have r: "files w' (dataset_id t, generator_id g, tab_id t) = Some a \<and>
         generator_calls w' \<le> generator_calls w + 1"
    using annotate_table_returns by blast
  then show "files w' (dataset_id t, generator_id g, tab_id t) = Some a"
    and "generator_calls w' \<le> generator_calls w + 1" by simp_all
  from r h have "files w' (dataset_id t', generator_id g, tab_id t') = Some a" by simp
  then show "annotate_table normalise g t' w' = (Inr a, w')" by (rule annotate_table_hit)
qed

lemma example_hypotheses:
  "files empty_world (dataset_id example_table, generator_id example_generator, tab_id example_table)
     = None"
  "failure (get_candidates example_generator example_table) = None"
  "distinct (map fst (items (get_candidates example_generator example_table)))"
  "\<forall>(k, cs) \<in> set (items (get_candidates example_generator example_table)).
     cs \<noteq> [] \<longrightarrow> k \<in> (\<lambda>c. ascii_lower (label example_table c)) ` set (cells example_table)"
  by (simp_all add: empty_world_def example_generator_def example_table_def ascii_lower_labels)

theorem annotate_table_idempotent_witness:
  "files (dump (''Round1'', ''lookup'', ''t1'') example_table empty_world)
     (dataset_id example_table, generator_id example_generator, tab_id example_table)
     = Some example_table \<and>
   annotate_table ascii_lower example_generator example_table
     (dump (''Round1'', ''lookup'', ''t1'') example_table empty_world)
     = (Inr example_table, dump (''Round1'', ''lookup'', ''t1'') example_table empty_world) \<and>
   (\<exists>a w'.
      annotate_table ascii_lower example_generator example_table empty_world = (Inr a, w') \<and>
      annotate_table ascii_lower example_generator example_table w' = (Inr a, w') \<and>
      generator_calls w' \<le> 1)"
proof -
  let ?w = "dump (''Round1'', ''lookup'', ''t1'') example_table empty_world"
  have hit: "files ?w (dataset_id example_table, generator_id example_generator,
               tab_id example_table) = Some example_table"
    by (simp add: dump_def example_table_def example_generator_def)
  from annotate_table_idempotent
         [of ?w example_table example_generator example_table ascii_lower] hit
  have first: "annotate_table ascii_lower example_generator example_table ?w = (Inr example_table, ?w)"
    by blast
  from annotate_table_miss_eq [OF example_hypotheses]
  obtain a w' where
    miss: "annotate_table ascii_lower example_generator example_table empty_world = (Inr a, w')"
    by blast
  with annotate_table_idempotent
         [of empty_world example_table example_generator a ascii_lower w' example_table]
  have "annotate_table ascii_lower example_generator example_table w' = (Inr a, w')"
    and "generator_calls w' \<le> generator_calls empty_world + 1"
    by blast+
  then have "annotate_table ascii_lower example_generator example_table w' = (Inr a, w')"
    and "generator_calls w' \<le> 1"
    by (simp_all add: empty_world_def)
  with hit first miss show ?thesis by blast
qed

section \<open>Cache misses\<close>

text \<open>
  C6: on a cache miss, with a generator that returns normally, each search key at most
  once and, with a non-empty candidate list, only search keys of the table,
  \<open>annotate_table\<close> calls the generator once, on the whole table, stores the annotated
  table and returns it. The dictionary of the table has one entry per distinct search
  key, holding all the cells with that key. In the returned table, every cell whose key
  came with a non-empty candidate list has the entity of the first candidate, and every
  cell whose key came with an empty list has the annotation it had before.
\<close>

theorem annotate_table_miss:
  assumes "files w (dataset_id t, generator_id g, tab_id t) = None"
    and "failure (get_candidates g t) = None"
    and "distinct (map fst (items (get_candidates g t)))"
    and "\<forall>(k, cs) \<in> set (items (get_candidates g t)).
           cs \<noteq> [] \<longrightarrow> k \<in> (\<lambda>c. normalise (label t c)) ` set (cells t)"
  shows "\<exists>t' w'.
           annotate_table normalise g t w = (Inr t', w') \<and>
           generator_calls w' = generator_calls w + 1 \<and>
           files w' = (files w)((dataset_id t, generator_id g, tab_id t) \<mapsto> t') \<and>
           t' = t\<lparr>annotations := annotated normalise (items (get_candidates g t)) t\<rparr> \<and>
           dom (get_search_keys_cells_dict normalise t)
             = (\<lambda>c. normalise (label t c)) ` set (cells t) \<and>
           (\<forall>k \<in> dom (get_search_keys_cells_dict normalise t).
              get_search_keys_cells_dict normalise t k
                = Some (filter (\<lambda>c. normalise (label t c) = k) (cells t))) \<and>
           (\<forall>c \<in> set (cells t). \<forall>best others.
              (normalise (label t c), best # others) \<in> set (items (get_candidates g t)) \<longrightarrow>
              annotations t' c = Some (Entity best)) \<and>
           (\<forall>c \<in> set (cells t).
              (normalise (label t c), []) \<in> set (items (get_candidates g t)) \<longrightarrow>
              annotations t' c = annotations t c)"
proof -
  let ?rs = "items (get_candidates g t)"
  let ?t' = "t\<lparr>annotations := annotated normalise ?rs t\<rparr>"
  have entries: "\<forall>k \<in> dom (get_search_keys_cells_dict normalise t).
              get_search_keys_cells_dict normalise t k
                = Some (filter (\<lambda>c. normalise (label t c) = k) (cells t))"
    by (auto simp: dict_Some_iff)
  have best: "\<forall>c \<in> set (cells t). \<forall>best others.
              (normalise (label t c), best # others) \<in> set ?rs \<longrightarrow>
              annotations ?t' c = Some (Entity best)"
    using assms(3) by (auto simp: annotated_def dest: map_of_is_SomeI)
  have none: "\<forall>c \<in> set (cells t).
              (normalise (label t c), []) \<in> set ?rs \<longrightarrow> annotations ?t' c = annotations t c"
    using assms(3) by (auto simp: annotated_def dest: map_of_is_SomeI)
  from annotate_table_miss_eq [OF assms] dict_dom [of normalise t] entries best none
  show ?thesis by simp
qed

theorem annotate_table_miss_witness:
  "files empty_world (dataset_id example_table, generator_id example_generator, tab_id example_table)
     = None \<and>
   failure (get_candidates example_generator example_table) = None \<and>
   distinct (map fst (items (get_candidates example_generator example_table))) \<and>
   ''paris'' \<in> (\<lambda>c. ascii_lower (label example_table c)) ` set (cells example_table) \<and>
   (\<exists>t' w'.
      annotate_table ascii_lower example_generator example_table empty_world = (Inr t', w') \<and>
      generator_calls w' = 1 \<and>
      files w' (''Round1'', ''lookup'', ''t1'') = Some t' \<and>
      annotations t' (0, 0) = Some (Entity ''http://dbpedia.org/resource/Paris'') \<and>
      annotations t' (0, 1) = Some (Entity ''http://dbpedia.org/resource/Paris'') \<and>
      annotations t' (0, 2) = None)"
proof -
  have k: "''paris'' \<in> (\<lambda>c. ascii_lower (label example_table c)) ` set (cells example_table)"
    by (simp add: example_table_def ascii_lower_labels)
  from annotate_table_miss [OF example_hypotheses]
  obtain t' w' where
    r: "annotate_table ascii_lower example_generator example_table empty_world = (Inr t', w')"
    and c: "generator_calls w' = generator_calls empty_world + 1"
    and f: "files w' = (files empty_world)
              ((dataset_id example_table, generator_id example_generator, tab_id example_table)
               \<mapsto> t')"
    and t': "t' = example_table
              \<lparr>annotations := annotated ascii_lower (items (get_candidates example_generator example_table))
                                example_table\<rparr>"
    by blast
  from c have "generator_calls w' = 1" by (simp add: empty_world_def)
  moreover from f have "files w' (''Round1'', ''lookup'', ''t1'') = Some t'"
    by (simp add: example_table_def example_generator_def)
  moreover have "annotations t' (0, 0) = Some (Entity ''http://dbpedia.org/resource/Paris'')"
    "annotations t' (0, 1) = Some (Entity ''http://dbpedia.org/resource/Paris'')"
    "annotations t' (0, 2) = None"
    by (simp_all add: t' annotated_def example_table_def example_generator_def ascii_lower_labels)
  ultimately show ?thesis using example_hypotheses(1,2,3) k r by blast
qed

section \<open>Generator failures\<close>

text \<open>
  When the generator raises, the loop ends with the generator's exception, unless a
  result before it had candidates for a search key the dictionary lacks: subscripting
  the dictionary raises \<^verbatim>\<open>KeyError\<close> first.
\<close>

lemma annotate_loop_raises:
  "failure r = Some e \<Longrightarrow>
   annotate_loop d r t =
     Inl (if \<forall>(k, cs) \<in> set (items r). cs \<noteq> [] \<longrightarrow> k \<in> dom d then e else KeyError)"
proof (induction r arbitrary: t)
  case (Yield x r)
  then show ?case by (cases x) (auto split: list.splits option.splits)
qed simp_all

text \<open>
  C7: on a cache miss, when the generator raises, at the call or while its results are
  iterated, \<open>annotate_table\<close> ends with the generator's own exception, which nothing
  catches, and the files of the cache are what they were: nothing is written for the
  table. The one other outcome is the \<^verbatim>\<open>KeyError\<close> of the loop, exactly when an earlier
  result had candidates for a search key the table does not have; nothing is written
  then either.
\<close>

theorem generator_failure_not_persisted:
  assumes "files w (dataset_id t, generator_id g, tab_id t) = None"
    and "failure (get_candidates g t) = Some e"
  shows "annotate_table normalise g t w =
           (Inl (if \<forall>(k, cs) \<in> set (items (get_candidates g t)).
                      cs \<noteq> [] \<longrightarrow> k \<in> dom (get_search_keys_cells_dict normalise t)
                 then e else KeyError),
            w\<lparr>generator_calls := generator_calls w + 1\<rparr>) \<and>
         files (w\<lparr>generator_calls := generator_calls w + 1\<rparr>) = files w"
  using assms(1)
    annotate_loop_raises [OF assms(2), of "get_search_keys_cells_dict normalise t" t]
  by (simp add: annotate_table_def Let_def)

theorem generator_failure_not_persisted_witness:
  "files empty_world (dataset_id example_table, generator_id failing_generator, tab_id example_table)
     = None \<and>
   failure (get_candidates failing_generator example_table) = Some (Raised ''timeout'') \<and>
   annotate_table ascii_lower failing_generator example_table empty_world
     = (Inl (Raised ''timeout''), empty_world\<lparr>generator_calls := 1\<rparr>) \<and>
   files (empty_world\<lparr>generator_calls := 1\<rparr>) = files empty_world"
proof -
  have a: "files empty_world
             (dataset_id example_table, generator_id failing_generator, tab_id example_table)
           = None"
    by (simp add: empty_world_def)
  have b: "failure (get_candidates failing_generator example_table) = Some (Raised ''timeout'')"
    by (simp add: failing_generator_def)
  have k: "\<forall>(k, cs) \<in> set (items (get_candidates failing_generator example_table)).
             cs \<noteq> [] \<longrightarrow> k \<in> dom (get_search_keys_cells_dict ascii_lower example_table)"
    by (simp add: failing_generator_def dict_dom example_table_def ascii_lower_labels)
  have c: "generator_calls empty_world + 1 = 1" by (simp add: empty_world_def)
  from generator_failure_not_persisted [OF a b, of ascii_lower] k c a b show ?thesis
    by simp
qed

text \<open>A generator whose first result names a search key the table does not have.\<close>

lemma generator_failure_key_error_example:
  "annotate_table ascii_lower
     \<lparr>generator_id = ''lookup'',
      get_candidates =
        (\<lambda>t. Yield (''rome'', [''http://dbpedia.org/resource/Rome''])
               (Throw (Raised ''timeout'')))\<rparr>
     example_table empty_world
   = (Inl KeyError, empty_world\<lparr>generator_calls := 1\<rparr>)"
  by (simp add: annotate_table_def Let_def get_search_keys_cells_dict_def
        example_table_def empty_world_def ascii_lower_labels)

end
